theory Spec2Isabelle
  imports Main
begin

section \<open>Scene objects and side-channel attributes\<close>

text \<open>
  The drawing tool keeps its scene in a canvas of the rendering library: an ordered list
  of objects. \<^verbatim>\<open>script.js\<close> reads three properties of an object (\<^verbatim>\<open>type\<close>, \<^verbatim>\<open>id\<close>,
  \<^verbatim>\<open>text\<close>) and two side-channel attributes, \<^verbatim>\<open>measurementText\<close> and
  \<^verbatim>\<open>lengthMeasurementText\<close>. A property that was never assigned reads as
  \<^verbatim>\<open>undefined\<close>: \<open>None\<close> for \<^verbatim>\<open>id\<close>.
\<close>

datatype error = TypeError | LibraryError string

text \<open>
  What a side-channel attribute holds right after a snapshot was loaded, before the
  relink pass: nothing (\<^verbatim>\<open>undefined\<close>, \<^verbatim>\<open>null\<close> or another falsy value), a truthy
  primitive (a bare identifier), or a plain object with its own \<^verbatim>\<open>id\<close> and \<^verbatim>\<open>text\<close>
  members. A loaded snapshot holds no reference from one object to another.
\<close>

datatype rawval = Absent | Bare nat | Plain "nat option" string

text \<open>
  On the live canvas the attribute is such a value, or a reference to an object of the
  canvas, named by the object's position in the list of objects.
\<close>

datatype attr = Raw rawval | Live nat

record 'a fobj =
  obj_type :: string
  obj_id :: "nat option"
  obj_text :: string
  measurementText :: 'a
  lengthMeasurementText :: 'a

type_synonym restored = "rawval fobj list"
type_synonym scene = "attr fobj list"

text \<open>The condition of \<^verbatim>\<open>if (obj.measurementText)\<close>.\<close>

fun truthy :: "rawval \<Rightarrow> bool" where
  "truthy Absent = False"
| "truthy (Bare n) = True"
| "truthy (Plain i t) = True"

text \<open>
  The property read \<^verbatim>\<open>v.id\<close>: a TypeError on \<^verbatim>\<open>undefined\<close> and \<^verbatim>\<open>null\<close>,
  \<^verbatim>\<open>undefined\<close> on a primitive, the member on an object.
\<close>

fun prop_id :: "rawval \<Rightarrow> error + nat option" where
  "prop_id Absent = Inl TypeError"
| "prop_id (Bare n) = Inr None"
| "prop_id (Plain i t) = Inr i"

text \<open>
  \<^verbatim>\<open>Array.prototype.find\<close> returns the first element that satisfies the predicate, or
  \<^verbatim>\<open>undefined\<close>. The element is an object of the canvas; the model returns its position.
\<close>

fun find_first :: "('a \<Rightarrow> bool) \<Rightarrow> 'a list \<Rightarrow> nat option" where
  "find_first P [] = None"
| "find_first P (x # xs) = (if P x then Some 0 else map_option Suc (find_first P xs))"

section \<open>The association rebuilder\<close>

text \<open>
  \<^verbatim>\<open>
  if (obj.measurementText) {
      const measurementText = this.canvas.getObjects().find(text => text.id === obj.measurementText.id);
      if (measurementText) {
          obj.measurementText = measurementText;
      }
  }
  \<close>
  The same code runs for \<^verbatim>\<open>lengthMeasurementText\<close>. \<^verbatim>\<open>===\<close> on two
  \<^verbatim>\<open>undefined\<close> values is true.
\<close>

definition relink_attr :: "restored \<Rightarrow> rawval \<Rightarrow> error + attr" where
  "relink_attr objs v =
     (if truthy v then
        (case prop_id v of
           Inl e \<Rightarrow> Inl e
         | Inr k \<Rightarrow>
             (case find_first (\<lambda>text. obj_id text = k) objs of
                Some j \<Rightarrow> Inr (Live j)
              | None \<Rightarrow> Inr (Raw v)))
      else Inr (Raw v))"

definition with_attrs :: "'a fobj \<Rightarrow> 'b \<Rightarrow> 'b \<Rightarrow> 'b fobj" where
  "with_attrs obj m l =
     \<lparr>obj_type = obj_type obj, obj_id = obj_id obj, obj_text = obj_text obj,
      measurementText = m, lengthMeasurementText = l\<rparr>"

text \<open>An object the pass has not changed: both attributes as they were loaded.\<close>

definition untouched :: "rawval fobj \<Rightarrow> attr fobj" where
  "untouched obj = with_attrs obj (Raw (measurementText obj)) (Raw (lengthMeasurementText obj))"

definition area_shape :: "string \<Rightarrow> bool" where
  "area_shape t = (t = ''rect'' \<or> t = ''circle'' \<or> t = ''triangle'')"

text \<open>
  The body of the \<^verbatim>\<open>forEach\<close> callback for one object. An exception leaves the object
  as far as the body got.
\<close>

definition relink_obj :: "restored \<Rightarrow> rawval fobj \<Rightarrow> error option \<times> attr fobj" where
  "relink_obj objs obj =
     (if area_shape (obj_type obj) then
        (case relink_attr objs (measurementText obj) of
           Inl e \<Rightarrow> (Some e, untouched obj)
         | Inr m \<Rightarrow>
             (case relink_attr objs (lengthMeasurementText obj) of
                Inl e \<Rightarrow> (Some e, with_attrs obj m (Raw (lengthMeasurementText obj)))
              | Inr l \<Rightarrow> (None, with_attrs obj m l)))
      else (None, untouched obj))"

text \<open>
  \<^verbatim>\<open>this.canvas.getObjects().forEach(obj => ...)\<close>: the objects in order. The callback
  assigns only the two attributes of the object it visits, and \<^verbatim>\<open>find\<close> reads only the
  \<^verbatim>\<open>id\<close> of the objects, so every search sees the objects as they were loaded
  (\<open>objs\<close>). An exception ends the loop and leaves the remaining objects untouched.
\<close>

fun forEach_relink :: "restored \<Rightarrow> restored \<Rightarrow> error option \<times> scene" where
  "forEach_relink objs [] = (None, [])"
| "forEach_relink objs (obj # rest) =
     (case relink_obj objs obj of
        (Some e, obj') \<Rightarrow> (Some e, obj' # map untouched rest)
      | (None, obj') \<Rightarrow>
          (case forEach_relink objs rest of (e, rest') \<Rightarrow> (e, obj' # rest')))"

definition reestablishAssociations :: "restored \<Rightarrow> error option \<times> scene" where
  "reestablishAssociations objs = forEach_relink objs objs"

section \<open>The history ledger\<close>

text \<open>
  The two operations of the rendering library that the ledger calls are parameters of
  the model. \<open>toJSON canvas\<close> is the outcome of
  \<^verbatim>\<open>JSON.stringify(this.canvas.toJSON(['measurementText', 'lengthMeasurementText']))\<close>:
  the text, or the exception that the call throws (a scene whose references form a cycle
  cannot be written as text).
  \<open>loadFromJSON state canvas\<close> is the outcome of \<^verbatim>\<open>this.canvas.loadFromJSON(state, callback)\<close>:
  either the canvas now holds the loaded objects and the callback runs, or the callback
  never runs, the canvas is left as the library left it, and an exception may have been
  thrown. The callback is taken to run before \<^verbatim>\<open>loadFromJSON\<close> returns.
\<close>

datatype load_result = Loaded restored | NotLoaded "error option" scene

type_synonym serializer = "scene \<Rightarrow> error + string"
type_synonym loader = "string option \<Rightarrow> scene \<Rightarrow> load_result"

text \<open>
  \<open>undoBtn\<close> and \<open>redoBtn\<close>: \<open>None\<close> when the page has no such element, otherwise the
  element's \<^verbatim>\<open>disabled\<close> flag.
\<close>

record HistoryModule =
  canvas :: scene
  history :: "string list"
  currentIndex :: int
  limit :: int
  undoBtn :: "bool option"
  redoBtn :: "bool option"

text \<open>\<^verbatim>\<open>xs.slice(0, e)\<close>: a negative end counts from the end of the array.\<close>

definition js_slice0 :: "'a list \<Rightarrow> int \<Rightarrow> 'a list" where
  "js_slice0 xs e = (if e < 0 then take (nat (int (length xs) + e)) xs else take (nat e) xs)"

text \<open>\<^verbatim>\<open>xs[i]\<close>: \<^verbatim>\<open>undefined\<close> outside the array.\<close>

definition js_index :: "'a list \<Rightarrow> int \<Rightarrow> 'a option" where
  "js_index xs i = (if 0 \<le> i \<and> i < int (length xs) then Some (xs ! nat i) else None)"

text \<open>
  \<^verbatim>\<open>
  updateButtons() {
      if (this.undoBtn) {
          this.undoBtn.disabled = this.currentIndex <= 0;
      }
      if (this.redoBtn) {
          this.redoBtn.disabled = this.currentIndex >= this.history.length - 1;
      }
  }
  \<close>
\<close>

definition updateButtons :: "HistoryModule \<Rightarrow> HistoryModule" where
  "updateButtons s =
     s\<lparr>undoBtn := map_option (\<lambda>_. currentIndex s \<le> 0) (undoBtn s),
       redoBtn := map_option (\<lambda>_. currentIndex s \<ge> int (length (history s)) - 1) (redoBtn s)\<rparr>"

text \<open>
  The constructor; \<open>u\<close> and \<open>r\<close> are what \<^verbatim>\<open>document.getElementById\<close> finds for the
  two buttons.
\<close>

definition new_HistoryModule :: "scene \<Rightarrow> int \<Rightarrow> bool option \<Rightarrow> bool option \<Rightarrow> HistoryModule" where
  "new_HistoryModule c lim u r =
     updateButtons \<lparr>canvas = c, history = [], currentIndex = - 1, limit = lim,
                    undoBtn = u, redoBtn = r\<rparr>"

text \<open>The guards of \<^verbatim>\<open>annuler\<close> and \<^verbatim>\<open>retablir\<close>.\<close>

definition canUndo :: "HistoryModule \<Rightarrow> bool" where
  "canUndo s = (currentIndex s > 0)"

definition canRedo :: "HistoryModule \<Rightarrow> bool" where
  "canRedo s = (currentIndex s < int (length (history s)) - 1)"

text \<open>
  \<^verbatim>\<open>
  enregistrerEtat() {
      if (this.currentIndex < this.history.length - 1) {
          this.history = this.history.slice(0, this.currentIndex + 1);
      }
      const canvasState = JSON.stringify(this.canvas.toJSON(['measurementText', 'lengthMeasurementText']));
      this.history.push(canvasState);
      if (this.history.length > this.limit) {
          this.history.shift();
      } else {
          this.currentIndex++;
      }
      this.updateButtons();
  }
  \<close>
  \<^verbatim>\<open>shift\<close> removes the first element and does nothing on an empty array. An
  exception of the serializer leaves the method after the truncation and before the
  push: the result is the exception, if any, and the module as it is then.
\<close>

definition enregistrerEtat :: "serializer \<Rightarrow> HistoryModule \<Rightarrow> error option \<times> HistoryModule" where
  "enregistrerEtat toJSON s =
     (let s1 = (if currentIndex s < int (length (history s)) - 1
                then s\<lparr>history := js_slice0 (history s) (currentIndex s + 1)\<rparr> else s)
      in case toJSON (canvas s1) of
           Inl e \<Rightarrow> (Some e, s1)
         | Inr canvasState \<Rightarrow>
             (let h2 = history s1 @ [canvasState]
              in if int (length h2) > limit s1
                 then (None, updateButtons (s1\<lparr>history := tl h2\<rparr>))
                 else (None, updateButtons (s1\<lparr>history := h2,
                                               currentIndex := currentIndex s1 + 1\<rparr>))))"

text \<open>
  \<^verbatim>\<open>
  loadState() {
      const state = this.history[this.currentIndex];
      this.canvas.loadFromJSON(state, () => {
          this.canvas.renderAll();
          this.reestablishAssociations();
      });
  }
  \<close>
  \<^verbatim>\<open>loadState\<close>, \<^verbatim>\<open>annuler\<close> and \<^verbatim>\<open>retablir\<close> return the exception that
  left them, if any, and the module as it is then. \<^verbatim>\<open>renderAll\<close> paints the canvas and
  changes nothing that the model holds.
\<close>

definition loadState :: "loader \<Rightarrow> HistoryModule \<Rightarrow> error option \<times> HistoryModule" where
  "loadState loadFromJSON s =
     (case loadFromJSON (js_index (history s) (currentIndex s)) (canvas s) of
        Loaded objs \<Rightarrow>
          (case reestablishAssociations objs of (e, c) \<Rightarrow> (e, s\<lparr>canvas := c\<rparr>))
      | NotLoaded e c \<Rightarrow> (e, s\<lparr>canvas := c\<rparr>))"

text \<open>
  \<^verbatim>\<open>
  annuler() {
      if (this.currentIndex > 0) {
          this.currentIndex--;
          this.loadState();
          this.updateButtons();
      }
  }
  retablir() {
      if (this.currentIndex < this.history.length - 1) {
          this.currentIndex++;
          this.loadState();
          this.updateButtons();
      }
  }
  \<close>
\<close>

definition annuler :: "loader \<Rightarrow> HistoryModule \<Rightarrow> error option \<times> HistoryModule" where
  "annuler loadFromJSON s =
     (if canUndo s then
        (case loadState loadFromJSON (s\<lparr>currentIndex := currentIndex s - 1\<rparr>) of
           (Some e, s') \<Rightarrow> (Some e, s')
         | (None, s') \<Rightarrow> (None, updateButtons s'))
      else (None, s))"

definition retablir :: "loader \<Rightarrow> HistoryModule \<Rightarrow> error option \<times> HistoryModule" where
  "retablir loadFromJSON s =
     (if canRedo s then
        (case loadState loadFromJSON (s\<lparr>currentIndex := currentIndex s + 1\<rparr>) of
           (Some e, s') \<Rightarrow> (Some e, s')
         | (None, s') \<Rightarrow> (None, updateButtons s'))
      else (None, s))"

section \<open>Sequences of user actions\<close>

text \<open>
  Every handler runs to its end before the next event is taken. \<open>Draw c\<close> is a call
  site that leaves the canvas as \<open>c\<close>; the other three are the calls of
  \<^verbatim>\<open>enregistrerEtat\<close>, \<^verbatim>\<open>annuler\<close> and \<^verbatim>\<open>retablir\<close>. An exception ends the handler
  that raised it and nothing else.
\<close>

datatype action = Draw scene | Record | Undo | Redo

fun step :: "serializer \<Rightarrow> loader \<Rightarrow> HistoryModule \<Rightarrow> action \<Rightarrow> HistoryModule" where
  "step toJSON loadFromJSON s (Draw c) = s\<lparr>canvas := c\<rparr>"
| "step toJSON loadFromJSON s Record = snd (enregistrerEtat toJSON s)"
| "step toJSON loadFromJSON s Undo = snd (annuler loadFromJSON s)"
| "step toJSON loadFromJSON s Redo = snd (retablir loadFromJSON s)"

definition run :: "serializer \<Rightarrow> loader \<Rightarrow> HistoryModule \<Rightarrow> action list \<Rightarrow> HistoryModule" where
  "run toJSON loadFromJSON s acts = foldl (step toJSON loadFromJSON) s acts"

text \<open>
  \<open>stores toJSON c\<close>: the serializer returns a text for the scene \<open>c\<close>, so a call of
  \<^verbatim>\<open>enregistrerEtat\<close> on it reaches the push. \<open>stored\<close> counts the calls of
  \<^verbatim>\<open>enregistrerEtat\<close> in a sequence of actions that do.
\<close>

definition stores :: "serializer \<Rightarrow> scene \<Rightarrow> bool" where
  "stores toJSON c = (case toJSON c of Inl e \<Rightarrow> False | Inr text \<Rightarrow> True)"

fun stored :: "serializer \<Rightarrow> loader \<Rightarrow> HistoryModule \<Rightarrow> action list \<Rightarrow> nat" where
  "stored toJSON loadFromJSON s [] = 0"
| "stored toJSON loadFromJSON s (a # acts) =
     (if a = Record \<and> stores toJSON (canvas s) then 1 else 0)
       + stored toJSON loadFromJSON (step toJSON loadFromJSON s a) acts"


text \<open>
  The shape of the ledger that the constructor establishes and that every operation keeps:
  the cursor is \<open>-1\<close> on an empty ledger and an index of the sequence otherwise, and the
  sequence is no longer than the limit.
\<close>

definition ledger_inv :: "HistoryModule \<Rightarrow> bool" where
  "ledger_inv s =
     (- 1 \<le> currentIndex s \<and> currentIndex s < int (length (history s)) \<and>
      (history s = [] \<or> 0 \<le> currentIndex s) \<and>
      int (length (history s)) \<le> max 0 (limit s))"

text \<open>
  A side-channel value is dangling in a loaded scene when it is truthy and no object of
  the scene has an \<^verbatim>\<open>id\<close> equal to the value's \<^verbatim>\<open>id\<close>.
\<close>

definition dangling :: "restored \<Rightarrow> rawval \<Rightarrow> bool" where
  "dangling objs v = (truthy v \<and> (\<forall>t \<in> set objs. Inr (obj_id t) \<noteq> prop_id v))"

section \<open>Example inputs\<close>

text \<open>
  A text label, a serializer that writes the texts of the objects one after the other
  and throws on a scene with an object that refers to itself, and a loader that replaces
  the scene by an empty one. They stand for the rendering library in the examples below
  and are no part of \<^verbatim>\<open>script.js\<close>.
\<close>

definition label :: "string \<Rightarrow> attr fobj" where
  "label t = \<lparr>obj_type = ''text'', obj_id = None, obj_text = t,
              measurementText = Raw Absent, lengthMeasurementText = Raw Absent\<rparr>"

definition self_linked :: "scene \<Rightarrow> bool" where
  "self_linked c =
     list_ex (\<lambda>(i, obj). measurementText obj = Live i \<or> lengthMeasurementText obj = Live i)
       (enumerate 0 c)"

definition texts_of :: serializer where
  "texts_of c =
     (if self_linked c then Inl (LibraryError ''Maximum call stack size exceeded'')
      else Inr (concat (map obj_text c)))"

definition clearing :: loader where
  "clearing state c = Loaded []"

text \<open>
  A loader given by a table from snapshot texts to the objects they restore; a text that
  is not in the table makes it throw, and \<^verbatim>\<open>undefined\<close> makes it return at once.
\<close>

definition restore_table :: "(string \<times> restored) list \<Rightarrow> loader" where
  "restore_table table state c =
     (case state of
        None \<Rightarrow> NotLoaded None c
      | Some text \<Rightarrow>
          (case map_of table text of
             Some objs \<Rightarrow> Loaded objs
           | None \<Rightarrow> NotLoaded (Some (LibraryError ''unknown snapshot'')) c))"

text \<open>
  Loaded objects as the drawing tool makes them: \<^verbatim>\<open>script.js\<close> assigns no \<^verbatim>\<open>id\<close>
  to any object, so \<^verbatim>\<open>id\<close> reads as \<^verbatim>\<open>undefined\<close>. \<open>drawn_rect\<close> is the rectangle
  on the live canvas, linked to the label that follows it.
\<close>

definition loaded_rect :: "rawval \<Rightarrow> rawval fobj" where
  "loaded_rect v = \<lparr>obj_type = ''rect'', obj_id = None, obj_text = '''',
                    measurementText = v, lengthMeasurementText = Absent\<rparr>"

definition loaded_label :: "string \<Rightarrow> rawval fobj" where
  "loaded_label t = \<lparr>obj_type = ''text'', obj_id = None, obj_text = t,
                     measurementText = Absent, lengthMeasurementText = Absent\<rparr>"

definition drawn_rect :: "attr fobj" where
  "drawn_rect = \<lparr>obj_type = ''rect'', obj_id = None, obj_text = '''',
                  measurementText = Live 1, lengthMeasurementText = Raw Absent\<rparr>"

text \<open>
  The scene of the rectangle tool, what a loader restores from its snapshot and from the
  snapshot of the same scene with one more label, and the rectangle as the relink pass
  leaves it after a load: linked to itself.
\<close>

definition tool_scene :: scene where
  "tool_scene = [drawn_rect, label ''L: 2.00 cm, H: 1.00 cm'']"

definition tool_restored :: restored where
  "tool_restored = [loaded_rect (Plain None ''L: 2.00 cm, H: 1.00 cm''),
                    loaded_label ''L: 2.00 cm, H: 1.00 cm'']"

definition self_rect :: "attr fobj" where
  "self_rect = \<lparr>obj_type = ''rect'', obj_id = None, obj_text = '''',
                 measurementText = Live 0, lengthMeasurementText = Raw Absent\<rparr>"

definition tool_table :: "(string \<times> restored) list" where
  "tool_table =
     [('''', []),
      (''L: 2.00 cm, H: 1.00 cm'', tool_restored),
      (''L: 2.00 cm, H: 1.00 cmB'', tool_restored @ [loaded_label ''B''])]"

text \<open>
  A loaded rectangle in a scene whose objects have identifiers; the labels its two
  attributes name (identifiers 7 and 8) are not in the scene.
\<close>

definition orphan_rect :: "rawval fobj" where
  "orphan_rect = \<lparr>obj_type = ''rect'', obj_id = Some 1, obj_text = '''',
                   measurementText = Plain (Some 7) ''L: 2.00 cm, H: 1.00 cm'',
                   lengthMeasurementText = Plain (Some 8) ''L: 2.00 cm''\<rparr>"

section \<open>Frame lemmas and the ledger invariant\<close>

lemma updateButtons_fields [simp]:
  "history (updateButtons s) = history s"
  "currentIndex (updateButtons s) = currentIndex s"
  "limit (updateButtons s) = limit s"
  "canvas (updateButtons s) = canvas s"
  by (simp_all add: updateButtons_def)

lemma updateButtons_flags:
  "undoBtn (updateButtons s) = map_option (\<lambda>_. \<not> canUndo s) (undoBtn s)"
  "redoBtn (updateButtons s) = map_option (\<lambda>_. \<not> canRedo s) (redoBtn s)"
  by (simp_all add: updateButtons_def canUndo_def canRedo_def not_less)

lemma ledger_inv_updateButtons [simp]: "ledger_inv (updateButtons s) = ledger_inv s"
  by (simp add: ledger_inv_def)

lemma ledger_inv_new: "ledger_inv (new_HistoryModule c lim u r)"
  by (simp add: new_HistoryModule_def ledger_inv_def)

lemma limit_new [simp]: "limit (new_HistoryModule c lim u r) = lim"
  by (simp add: new_HistoryModule_def)

lemma enregistrerEtat_limit [simp]: "limit (snd (enregistrerEtat T s)) = limit s"
  by (simp add: enregistrerEtat_def Let_def split: sum.splits)

lemma take_cursor_length:
  assumes "ledger_inv s"
  shows "int (length (take (nat (currentIndex s + 1)) (history s))) = currentIndex s + 1"
proof -
  have "0 \<le> currentIndex s + 1" "currentIndex s + 1 \<le> int (length (history s))"
    using assms by (simp_all add: ledger_inv_def)
  then show ?thesis by (simp add: min_def) linarith
qed

text \<open>
  On a ledger that satisfies the invariant the truncation keeps the entries up to the
  cursor, also when the cursor is at the end and no truncation runs.
\<close>

lemma truncation:
  assumes "ledger_inv s"
  shows "(if currentIndex s < int (length (history s)) - 1
          then s\<lparr>history := js_slice0 (history s) (currentIndex s + 1)\<rparr> else s)
         = s\<lparr>history := take (nat (currentIndex s + 1)) (history s)\<rparr>"
proof -
  have c: "0 \<le> currentIndex s + 1" "currentIndex s + 1 \<le> int (length (history s))"
    using assms by (simp_all add: ledger_inv_def)
  show ?thesis
  proof (cases "currentIndex s < int (length (history s)) - 1")
    case True
    then show ?thesis using c by (simp add: js_slice0_def)
  next
    case False
    then have "take (nat (currentIndex s + 1)) (history s) = history s"
      using c by simp
    then show ?thesis using False by simp
  qed
qed

lemma enregistrerEtat_thrown:
  assumes "ledger_inv s" and "T (canvas s) = Inl e"
  shows "enregistrerEtat T s = (Some e, s\<lparr>history := take (nat (currentIndex s + 1)) (history s)\<rparr>)"
  unfolding enregistrerEtat_def truncation [OF assms(1)] using assms(2) by simp

lemma enregistrerEtat_stored:
  assumes "ledger_inv s" and "T (canvas s) = Inr x"
  shows "enregistrerEtat T s =
           (None,
            if currentIndex s + 2 > limit s
            then updateButtons (s\<lparr>history := tl (take (nat (currentIndex s + 1)) (history s) @ [x])\<rparr>)
            else updateButtons (s\<lparr>history := take (nat (currentIndex s + 1)) (history s) @ [x],
                                   currentIndex := currentIndex s + 1\<rparr>))"
proof -
  have len: "int (length (take (nat (currentIndex s + 1)) (history s) @ [x])) = currentIndex s + 2"
    using take_cursor_length [OF assms(1)] by simp
  show ?thesis
    unfolding enregistrerEtat_def truncation [OF assms(1)] using assms(2) len
    by (simp add: Let_def)
qed

lemma enregistrerEtat_history:
  assumes "ledger_inv s" and "T (canvas s) = Inr x"
  shows "history (snd (enregistrerEtat T s)) =
           (if currentIndex s + 2 > limit s
            then tl (take (nat (currentIndex s + 1)) (history s) @ [x])
            else take (nat (currentIndex s + 1)) (history s) @ [x])"
  by (simp add: enregistrerEtat_stored [of s T x, OF assms])

lemma enregistrerEtat_length:
  assumes "ledger_inv s" and "T (canvas s) = Inr x"
  shows "int (length (history (snd (enregistrerEtat T s)))) = max 0 (min (currentIndex s + 2) (limit s))"
proof -
  have c: "0 \<le> currentIndex s + 1" "int (length (history s)) \<le> max 0 (limit s)"
    using assms(1) by (simp_all add: ledger_inv_def)
  have "int (length (tl (take (nat (currentIndex s + 1)) (history s) @ [x]))) = currentIndex s + 1"
    using take_cursor_length [OF assms(1)] by simp
  moreover have "int (length (take (nat (currentIndex s + 1)) (history s) @ [x])) = currentIndex s + 2"
    using take_cursor_length [OF assms(1)] by simp
  ultimately show ?thesis
    unfolding enregistrerEtat_history [of s T x, OF assms] using c assms(1)
    by (auto simp add: ledger_inv_def)
qed

lemma enregistrerEtat_currentIndex:
  assumes "ledger_inv s"
  shows "currentIndex (snd (enregistrerEtat T s)) = int (length (history (snd (enregistrerEtat T s)))) - 1"
proof (cases "T (canvas s)")
  case (Inl e)
  show ?thesis
    using take_cursor_length [OF assms] by (simp add: enregistrerEtat_thrown [of s T e, OF assms Inl])
next
  case (Inr x)
  have "int (length (tl (take (nat (currentIndex s + 1)) (history s) @ [x]))) = currentIndex s + 1"
    using take_cursor_length [OF assms] by simp
  moreover have "int (length (take (nat (currentIndex s + 1)) (history s) @ [x])) = currentIndex s + 2"
    using take_cursor_length [OF assms] by simp
  ultimately show ?thesis
    by (simp add: enregistrerEtat_stored [of s T x, OF assms Inr])
qed

lemma ledger_inv_enregistrerEtat:
  assumes "ledger_inv s"
  shows "ledger_inv (snd (enregistrerEtat T s))"
proof (cases "T (canvas s)")
  case (Inl e)
  have c: "0 \<le> currentIndex s + 1" "currentIndex s + 1 \<le> int (length (history s))"
       "int (length (history s)) \<le> max 0 (limit s)"
    using assms by (simp_all add: ledger_inv_def)
  define kept where "kept = take (nat (currentIndex s + 1)) (history s)"
  have l: "int (length kept) = currentIndex s + 1"
    unfolding kept_def by (rule take_cursor_length [OF assms])
  have e: "kept = [] \<longleftrightarrow> currentIndex s + 1 = 0"
    using l by (cases kept) auto
  have "ledger_inv (s\<lparr>history := kept\<rparr>)"
    unfolding ledger_inv_def using c l e by auto
  then show ?thesis
    unfolding enregistrerEtat_thrown [of s T e, OF assms Inl] kept_def by simp
next
  case (Inr x)
  have c: "0 \<le> currentIndex s + 1" "currentIndex s + 1 \<le> int (length (history s))"
       "int (length (history s)) \<le> max 0 (limit s)"
    using assms by (simp_all add: ledger_inv_def)
  have l: "int (length (history (snd (enregistrerEtat T s)))) = max 0 (min (currentIndex s + 2) (limit s))"
    by (rule enregistrerEtat_length [of s T x, OF assms Inr])
  have "history (snd (enregistrerEtat T s)) = [] \<longleftrightarrow> int (length (history (snd (enregistrerEtat T s)))) = 0"
    by simp
  then show ?thesis
    unfolding ledger_inv_def enregistrerEtat_currentIndex [OF assms] enregistrerEtat_limit l
    using c by auto
qed

lemma loadState_fields [simp]:
  "history (snd (loadState L s)) = history s"
  "currentIndex (snd (loadState L s)) = currentIndex s"
  "limit (snd (loadState L s)) = limit s"
  by (simp_all add: loadState_def split: load_result.splits prod.splits)

lemma annuler_fields:
  "history (snd (annuler L s)) = history s"
  "limit (snd (annuler L s)) = limit s"
  "currentIndex (snd (annuler L s)) = (if canUndo s then currentIndex s - 1 else currentIndex s)"
proof -
  let ?t = "s\<lparr>currentIndex := currentIndex s - 1\<rparr>"
  obtain e s' where ls: "loadState L ?t = (e, s')"
    by (cases "loadState L ?t")
  have f: "history s' = history s" "limit s' = limit s" "currentIndex s' = currentIndex s - 1"
    using loadState_fields [of L ?t] ls by simp_all
  show "history (snd (annuler L s)) = history s"
    using ls f by (cases e) (simp_all add: annuler_def)
  show "limit (snd (annuler L s)) = limit s"
    using ls f by (cases e) (simp_all add: annuler_def)
  show "currentIndex (snd (annuler L s)) = (if canUndo s then currentIndex s - 1 else currentIndex s)"
    using ls f by (cases e) (simp_all add: annuler_def)
qed

lemma retablir_fields:
  "history (snd (retablir L s)) = history s"
  "limit (snd (retablir L s)) = limit s"
  "currentIndex (snd (retablir L s)) = (if canRedo s then currentIndex s + 1 else currentIndex s)"
proof -
  let ?t = "s\<lparr>currentIndex := currentIndex s + 1\<rparr>"
  obtain e s' where ls: "loadState L ?t = (e, s')"
    by (cases "loadState L ?t")
  have f: "history s' = history s" "limit s' = limit s" "currentIndex s' = currentIndex s + 1"
    using loadState_fields [of L ?t] ls by simp_all
  show "history (snd (retablir L s)) = history s"
    using ls f by (cases e) (simp_all add: retablir_def)
  show "limit (snd (retablir L s)) = limit s"
    using ls f by (cases e) (simp_all add: retablir_def)
  show "currentIndex (snd (retablir L s)) = (if canRedo s then currentIndex s + 1 else currentIndex s)"
    using ls f by (cases e) (simp_all add: retablir_def)
qed

lemma ledger_inv_annuler: "ledger_inv s \<Longrightarrow> ledger_inv (snd (annuler L s))"
  by (auto simp add: ledger_inv_def annuler_fields canUndo_def)

lemma ledger_inv_retablir: "ledger_inv s \<Longrightarrow> ledger_inv (snd (retablir L s))"
  by (auto simp add: ledger_inv_def retablir_fields canRedo_def)

lemma step_limit [simp]: "limit (step T L s a) = limit s"
  by (cases a) (simp_all add: annuler_fields retablir_fields)

lemma ledger_inv_step: "ledger_inv s \<Longrightarrow> ledger_inv (step T L s a)"
  by (cases a) (simp_all add: ledger_inv_enregistrerEtat ledger_inv_annuler ledger_inv_retablir, simp add: ledger_inv_def)

lemma run_snoc: "run T L s (acts @ [a]) = step T L (run T L s acts) a"
  by (simp add: run_def)


lemma run_append: "run T L s (as @ bs) = run T L (run T L s as) bs"
  by (simp add: run_def)

lemma run_invariant:
  "ledger_inv s \<Longrightarrow> ledger_inv (run T L s acts) \<and> limit (run T L s acts) = limit s"
  by (induction acts rule: rev_induct) (simp_all add: run_snoc ledger_inv_step, simp add: run_def)





lemma record_keeps_suffix:
  assumes inv: "ledger_inv s"
    and stored: "T (canvas s) = Inr x"
    and split: "take (nat (currentIndex s + 1)) (history s) = p @ q"
    and short: "int (length q) < limit s"
  shows "\<exists>p'. history (snd (enregistrerEtat T s)) = p' @ q @ [x]"
proof (cases "currentIndex s + 2 > limit s")
  case True
  have "int (length (p @ q)) = currentIndex s + 1"
    using take_cursor_length [OF inv] split by simp
  with True short have "p \<noteq> []" by auto
  then have "tl (p @ q @ [x]) = tl p @ q @ [x]" by simp
  with True show ?thesis
    using enregistrerEtat_history [of s T x, OF inv stored] split by auto
next
  case False
  then show ?thesis
    using enregistrerEtat_history [of s T x, OF inv stored] split by auto
qed

lemma take_at_end:
  assumes "currentIndex s = int (length (history s)) - 1"
  shows "take (nat (currentIndex s + 1)) (history s) = history s"
  using assms by simp

lemma draw_fields [simp]:
  "history (s\<lparr>canvas := c\<rparr>) = history s"
  "currentIndex (s\<lparr>canvas := c\<rparr>) = currentIndex s"
  "limit (s\<lparr>canvas := c\<rparr>) = limit s"
  "canvas (s\<lparr>canvas := c\<rparr>) = c"
  by simp_all

lemma ledger_inv_draw [simp]: "ledger_inv (s\<lparr>canvas := c\<rparr>) = ledger_inv s"
  by (simp add: ledger_inv_def)

lemma draw_record_suffix:
  assumes inv: "ledger_inv s"
    and stored: "T c = Inr x"
    and split: "take (nat (currentIndex s + 1)) (history s) = p @ q"
    and short: "int (length q) < limit s"
  shows "\<exists>p'. history (snd (enregistrerEtat T (s\<lparr>canvas := c\<rparr>))) = p' @ q @ [x]"
  using record_keeps_suffix [of "s\<lparr>canvas := c\<rparr>" T x p q] assms by simp

lemma annuler_failed_load:
  assumes "canUndo s"
    and "L (js_index (history s) (currentIndex s - 1)) (canvas s) = NotLoaded (Some e) c"
  shows "annuler L s = (Some e, s\<lparr>currentIndex := currentIndex s - 1, canvas := c\<rparr>)"
  using assms by (simp add: annuler_def loadState_def)

text \<open>A call of \<^verbatim>\<open>enregistrerEtat\<close> that stores its snapshot disables the redo button.\<close>

lemma record_disables_redo:
  assumes "ledger_inv s" and "T (canvas s) = Inr x"
  shows "redoBtn (snd (enregistrerEtat T s)) \<noteq> Some False"
proof -
  obtain t where t: "snd (enregistrerEtat T s) = updateButtons t"
    using enregistrerEtat_stored [of s T x, OF assms] by (cases "currentIndex s + 2 > limit s") simp_all
  have "currentIndex (updateButtons t) = int (length (history (updateButtons t))) - 1"
    using enregistrerEtat_currentIndex [OF assms(1), of T] t by simp
  then have "\<not> canRedo t" by (simp add: canRedo_def)
  then have "redoBtn (updateButtons t) = map_option (\<lambda>_. True) (redoBtn t)"
    by (simp add: updateButtons_flags(2))
  then show ?thesis unfolding t by (cases "redoBtn t") simp_all
qed

section \<open>Lemmas about the association rebuilder\<close>

lemma find_first_None: "find_first P xs = None \<longleftrightarrow> (\<forall>x \<in> set xs. \<not> P x)"
  by (induction xs) auto

lemma find_first_bound: "find_first P xs = Some j \<Longrightarrow> j < length xs \<and> P (xs ! j)"
proof (induction xs arbitrary: j)
  case Nil
  then show ?case by simp
next
  case (Cons x xs)
  then show ?case by (cases "P x") auto
qed

lemma relink_attr_total: "\<exists>a. relink_attr objs v = Inr a"
  by (cases v) (simp_all add: relink_attr_def split: option.splits)

lemma relink_obj_total: "fst (relink_obj objs obj) = None"
proof -
  obtain m where m: "relink_attr objs (measurementText obj) = Inr m"
    using relink_attr_total by blast
  obtain l where l: "relink_attr objs (lengthMeasurementText obj) = Inr l"
    using relink_attr_total by blast
  show ?thesis by (simp add: relink_obj_def m l)
qed

lemma forEach_relink_map:
  "forEach_relink objs rest = (None, map (\<lambda>obj. snd (relink_obj objs obj)) rest)"
proof (induction rest)
  case Nil
  then show ?case by simp
next
  case (Cons obj rest)
  obtain obj' where o: "relink_obj objs obj = (None, obj')"
    using relink_obj_total [of objs obj] by (cases "relink_obj objs obj") simp
  show ?case by (simp add: o Cons.IH)
qed

lemma reestablishAssociations_map:
  "reestablishAssociations objs = (None, map (\<lambda>obj. snd (relink_obj objs obj)) objs)"
  by (simp add: reestablishAssociations_def forEach_relink_map)

lemma relink_attr_dangling: "dangling objs v \<Longrightarrow> relink_attr objs v = Inr (Raw v)"
proof -
  assume d: "dangling objs v"
  then obtain k where k: "prop_id v = Inr k"
    by (cases v) (simp_all add: dangling_def)
  have "find_first (\<lambda>text. obj_id text = k) objs = None"
    using d k by (auto simp add: find_first_None dangling_def)
  then show ?thesis using d k by (simp add: relink_attr_def dangling_def)
qed

lemma with_attrs_fields [simp]:
  "measurementText (with_attrs obj m l) = m"
  "lengthMeasurementText (with_attrs obj m l) = l"
  "obj_type (with_attrs obj m l) = obj_type obj"
  "obj_id (with_attrs obj m l) = obj_id obj"
  "obj_text (with_attrs obj m l) = obj_text obj"
  by (simp_all add: with_attrs_def)

lemma relink_obj_dangling:
  "dangling objs (measurementText obj) \<Longrightarrow>
     measurementText (snd (relink_obj objs obj)) = Raw (measurementText obj)"
  "dangling objs (lengthMeasurementText obj) \<Longrightarrow>
     lengthMeasurementText (snd (relink_obj objs obj)) = Raw (lengthMeasurementText obj)"
proof -
  obtain m where m: "relink_attr objs (measurementText obj) = Inr m"
    using relink_attr_total by blast
  obtain l where l: "relink_attr objs (lengthMeasurementText obj) = Inr l"
    using relink_attr_total by blast
  show "dangling objs (measurementText obj) \<Longrightarrow>
     measurementText (snd (relink_obj objs obj)) = Raw (measurementText obj)"
    using m l relink_attr_dangling [of objs "measurementText obj"]
    by (simp add: relink_obj_def untouched_def)
  show "dangling objs (lengthMeasurementText obj) \<Longrightarrow>
     lengthMeasurementText (snd (relink_obj objs obj)) = Raw (lengthMeasurementText obj)"
    using m l relink_attr_dangling [of objs "lengthMeasurementText obj"]
    by (simp add: relink_obj_def untouched_def)
qed

lemma relink_attr_bare:
  "relink_attr objs (Bare n) =
     (case find_first (\<lambda>text. obj_id text = None) objs of
        Some j \<Rightarrow> Inr (Live j)
      | None \<Rightarrow> Inr (Raw (Bare n)))"
  by (simp add: relink_attr_def)

lemma relink_attr_without_ids:
  assumes "objs \<noteq> []" and "\<forall>t \<in> set objs. obj_id t = None"
  shows "relink_attr objs v = Inr (if truthy v \<and> prop_id v = Inr None then Live 0 else Raw v)"
proof (cases v)
  case Absent
  then show ?thesis by (simp add: relink_attr_def)
next
  case (Bare n)
  obtain x xs where "objs = x # xs" using assms(1) by (cases objs) auto
  then show ?thesis using Bare assms(2) by (simp add: relink_attr_def)
next
  case (Plain k t)
  show ?thesis
  proof (cases k)
    case None
    obtain x xs where "objs = x # xs" using assms(1) by (cases objs) auto
    then show ?thesis using Plain None assms(2) by (simp add: relink_attr_def)
  next
    case (Some n)
    have "find_first (\<lambda>text. obj_id text = Some n) objs = None"
      using assms(2) by (simp add: find_first_None)
    then show ?thesis using Plain Some by (simp add: relink_attr_def)
  qed
qed

section \<open>Evaluation of the examples\<close>

lemmas eval_defs = run_def enregistrerEtat_def Let_def js_slice0_def js_index_def updateButtons_def
  new_HistoryModule_def annuler_def retablir_def canUndo_def canRedo_def loadState_def
  clearing_def reestablishAssociations_def texts_of_def label_def
  self_linked_def stores_def tool_scene_def tool_restored_def tool_table_def self_rect_def

lemmas eval_rebuild = relink_obj_def relink_attr_def area_shape_def untouched_def with_attrs_def
  restore_table_def loaded_rect_def loaded_label_def orphan_rect_def drawn_rect_def dangling_def

section \<open>The claims about the ledger\<close>




text \<open>
  C2 (amended). Let the depth limit be at least 3, let the ledger be in any state that
  the constructor and a sequence of actions reach, and let record(A), record(B) and
  record(C) store the snapshots \<open>a\<close>, \<open>b\<close> and \<open>c\<close>. After record(C) the sequence ends
  with \<open>b\<close> and \<open>c\<close>. After two undos and record(D) the entries of \<open>b\<close> and \<open>c\<close> are
  gone: the sequence is the entries before them, followed by the snapshot of D when
  record(D) stores one. The cursor is at the newest index, so \<open>canRedo\<close> is false and
  \<^verbatim>\<open>retablir\<close> returns the module unchanged. When record(D) stores its snapshot the
  redo button is disabled.
\<close>

theorem redo_branch_pruned:
  assumes lim: "3 \<le> lim"
    and A: "T A = Inr a" and B: "T B = Inr b" and C: "T C = Inr c"
  shows "let s3 = run T L (run T L (new_HistoryModule cv lim u r) before)
                    [Draw A, Record, Draw B, Record, Draw C, Record];
             s6 = run T L s3 [Undo, Undo, Draw D, Record];
             older = take (length (history s3) - 2) (history s3)
         in history s3 = older @ [b, c] \<and>
            history s6 = older @ (case T D of Inl e \<Rightarrow> [] | Inr d \<Rightarrow> [d]) \<and>
            currentIndex s6 = int (length (history s6)) - 1 \<and>
            \<not> canRedo s6 \<and>
            retablir L s6 = (None, s6) \<and>
            (stores T D \<longrightarrow> redoBtn s6 \<noteq> Some False)"
proof -
  define start where "start = run T L (new_HistoryModule cv lim u r) before"
  have "ledger_inv start \<and> limit start = limit (new_HistoryModule cv lim u r)"
    unfolding start_def by (rule run_invariant [OF ledger_inv_new])
  then have inv0: "ledger_inv start" and lim0: "limit start = lim" by simp_all
  define sA where "sA = snd (enregistrerEtat T (start\<lparr>canvas := A\<rparr>))"
  define sB where "sB = snd (enregistrerEtat T (sA\<lparr>canvas := B\<rparr>))"
  define sC where "sC = snd (enregistrerEtat T (sB\<lparr>canvas := C\<rparr>))"
  have invA: "ledger_inv sA" and limA: "limit sA = lim"
    and curA: "currentIndex sA = int (length (history sA)) - 1"
    unfolding sA_def using inv0 lim0
    by (simp_all add: ledger_inv_enregistrerEtat enregistrerEtat_currentIndex)
  have invB: "ledger_inv sB" and limB: "limit sB = lim"
    and curB: "currentIndex sB = int (length (history sB)) - 1"
    unfolding sB_def using invA limA
    by (simp_all add: ledger_inv_enregistrerEtat enregistrerEtat_currentIndex)
  have invC: "ledger_inv sC" and limC: "limit sC = lim"
    and curC: "currentIndex sC = int (length (history sC)) - 1"
    unfolding sC_def using invB limB
    by (simp_all add: ledger_inv_enregistrerEtat enregistrerEtat_currentIndex)
  obtain pA where hA: "history sA = pA @ [a]"
    using draw_record_suffix [of start T A a "take (nat (currentIndex start + 1)) (history start)" "[]"]
      inv0 lim0 lim A unfolding sA_def by auto
  obtain pB where hB: "history sB = pB @ [a, b]"
    using draw_record_suffix [of sA T B b pA "[a]"] invA limA lim hA B take_at_end [OF curA]
    unfolding sB_def by auto
  obtain pC where hC: "history sC = pC @ [a, b, c]"
    using draw_record_suffix [of sB T C c pB "[a, b]"] invB limB lim hB C take_at_end [OF curB]
    unfolding sC_def by auto
  have s3: "run T L start [Draw A, Record, Draw B, Record, Draw C, Record] = sC"
    by (simp add: run_def sA_def sB_def sC_def)
  have older: "take (length (history sC) - 2) (history sC) = pC @ [a]"
    using hC by simp
  define u1 where "u1 = snd (annuler L sC)"
  define u2 where "u2 = snd (annuler L u1)"
  have cC: "currentIndex sC = int (length pC) + 2" using curC hC by simp
  have f1: "history u1 = history sC" "limit u1 = lim" "currentIndex u1 = int (length pC) + 1"
    and inv1: "ledger_inv u1"
    unfolding u1_def using cC limC invC
    by (simp_all add: annuler_fields canUndo_def ledger_inv_annuler)
  have f2: "history u2 = history sC" "limit u2 = lim" "currentIndex u2 = int (length pC)"
    and inv2: "ledger_inv u2"
    unfolding u2_def using f1 inv1
    by (simp_all add: annuler_fields canUndo_def ledger_inv_annuler)
  define drawn where "drawn = u2\<lparr>canvas := D\<rparr>"
  define sD where "sD = snd (enregistrerEtat T drawn)"
  have s6: "run T L sC [Undo, Undo, Draw D, Record] = sD"
    by (simp add: run_def u1_def u2_def sD_def drawn_def)
  have invd: "ledger_inv drawn" and cd: "canvas drawn = D"
    and fd: "history drawn = pC @ [a, b, c]" "limit drawn = lim" "currentIndex drawn = int (length pC)"
    unfolding drawn_def using inv2 f2 hC by simp_all
  have room: "int (length pC) + 3 \<le> lim"
    using invC limC hC lim by (simp add: ledger_inv_def)
  have n: "nat (int (length pC) + 1) = Suc (length pC)" by simp
  have tk: "take (nat (currentIndex drawn + 1)) (history drawn) = pC @ [a]"
    unfolding fd n by simp
  have curD: "currentIndex sD = int (length (history sD)) - 1"
    unfolding sD_def using invd by (simp add: enregistrerEtat_currentIndex)
  have nr: "\<not> canRedo sD" using curD by (simp add: canRedo_def)
  then have noop: "retablir L sD = (None, sD)" by (simp add: retablir_def)
  have hD: "history sD = (pC @ [a]) @ (case T D of Inl e \<Rightarrow> [] | Inr d \<Rightarrow> [d])"
  proof (cases "T D")
    case (Inl e)
    then have "T (canvas drawn) = Inl e" using cd by simp
    from enregistrerEtat_thrown [of drawn T e, OF invd this] show ?thesis
      unfolding sD_def using tk Inl by simp
  next
    case (Inr d)
    then have "T (canvas drawn) = Inr d" using cd by simp
    from enregistrerEtat_history [of drawn T d, OF invd this] show ?thesis
      unfolding sD_def using tk Inr fd(2,3) room by simp
  qed
  have btn: "stores T D \<longrightarrow> redoBtn sD \<noteq> Some False"
  proof
    assume "stores T D"
    then obtain d where "T D = Inr d"
      by (cases "T D") (simp_all add: stores_def)
    then have "T (canvas drawn) = Inr d" using cd by simp
    from record_disables_redo [of drawn T d, OF invd this] show "redoBtn sD \<noteq> Some False"
      unfolding sD_def .
  qed
  show ?thesis
    unfolding Let_def start_def [symmetric] s3 s6 older
    using hC hD curD nr noop btn by simp
qed

theorem redo_branch_pruned_witness:
  "(3::int) \<le> 4 \<and>
   texts_of [label ''A''] = Inr ''A'' \<and> texts_of [label ''B''] = Inr ''B'' \<and>
   texts_of [label ''C''] = Inr ''C'' \<and> stores texts_of [label ''D''] \<and>
   history (run texts_of clearing
       (run texts_of clearing (new_HistoryModule [] 4 (Some False) (Some False))
          [Draw [label ''X''], Record])
       [Draw [label ''A''], Record, Draw [label ''B''], Record, Draw [label ''C''], Record])
     = [''X'', ''A'', ''B'', ''C''] \<and>
   (let s6 = run texts_of clearing
       (run texts_of clearing
          (run texts_of clearing (new_HistoryModule [] 4 (Some False) (Some False))
             [Draw [label ''X''], Record])
          [Draw [label ''A''], Record, Draw [label ''B''], Record, Draw [label ''C''], Record])
       [Undo, Undo, Draw [label ''D''], Record]
    in history s6 = [''X'', ''A'', ''D''] \<and> \<not> canRedo s6 \<and> retablir clearing s6 = (None, s6) \<and>
       redoBtn s6 = Some True)"
proof -
  have h: "(3::int) \<le> 4" "texts_of [label ''A''] = Inr ''A''" "texts_of [label ''B''] = Inr ''B''"
    "texts_of [label ''C''] = Inr ''C''"
    by (simp_all add: eval_defs)
  show ?thesis
    using h redo_branch_pruned [where L = clearing and cv = "[]" and u = "Some False"
        and r = "Some False" and before = "[Draw [label ''X''], Record]"
        and D = "[label ''D'']", OF h]
    by (simp add: eval_defs)
qed

text \<open>
  C2 as stated fails in two ways. With a depth limit of 2, recording C evicts A, the
  second undo is a no-op with the cursor on B, and B stays in the ledger. With the
  default limit and the rectangle of the rectangle tool as A, the two undos load the
  snapshots of B and A and leave the rectangle linked to itself; record(D) truncates the
  sequence, the serializer throws, and \<^verbatim>\<open>updateButtons\<close> is not reached: the redo
  button stays enabled although the cursor is at the newest index.
\<close>

theorem limit_two_or_failed_record:
  "history (run texts_of clearing (new_HistoryModule [] 2 (Some False) (Some False))
     [Draw [label ''A''], Record, Draw [label ''B''], Record, Draw [label ''C''], Record,
      Undo, Undo, Draw [label ''D''], Record]) = [''B'', ''D''] \<and>
   history (run texts_of (restore_table tool_table)
     (new_HistoryModule [] 50 (Some False) (Some False))
     [Record, Draw tool_scene, Record, Draw (tool_scene @ [label ''B'']), Record,
      Draw (tool_scene @ [label ''B'', label ''C'']), Record,
      Undo, Undo, Draw [self_rect, label ''L: 2.00 cm, H: 1.00 cm'', label ''D''], Record])
     = ['''', ''L: 2.00 cm, H: 1.00 cm''] \<and>
   redoBtn (run texts_of (restore_table tool_table)
     (new_HistoryModule [] 50 (Some False) (Some False))
     [Record, Draw tool_scene, Record, Draw (tool_scene @ [label ''B'']), Record,
      Draw (tool_scene @ [label ''B'', label ''C'']), Record,
      Undo, Undo, Draw [self_rect, label ''L: 2.00 cm, H: 1.00 cm'', label ''D''], Record])
     = Some False"
  by (simp add: eval_rebuild eval_defs)

text \<open>
  C5 (amended). In every state that the constructor and a sequence of actions reach:
  when the sequence is non-empty, \<open>0 \<le> cursor < length\<close>; the cursor is at
  \<open>length - 1\<close> exactly when redo is unavailable; when the sequence is non-empty, the
  cursor is 0 exactly when undo is unavailable; when the sequence is empty, the cursor is
  \<open>-1\<close> and undo is unavailable. Undo and redo are available when the guards of
  \<^verbatim>\<open>annuler\<close> and \<^verbatim>\<open>retablir\<close> hold.
\<close>

theorem cursor_invariant:
  "let s = run T L (new_HistoryModule c lim u r) acts in
     (history s \<noteq> [] \<longrightarrow> 0 \<le> currentIndex s \<and> currentIndex s < int (length (history s))) \<and>
     (currentIndex s = int (length (history s)) - 1 \<longleftrightarrow> \<not> canRedo s) \<and>
     (history s \<noteq> [] \<longrightarrow> (currentIndex s = 0 \<longleftrightarrow> \<not> canUndo s)) \<and>
     (history s = [] \<longrightarrow> currentIndex s = - 1 \<and> \<not> canUndo s)"
proof -
  have "ledger_inv (run T L (new_HistoryModule c lim u r) acts)"
    using run_invariant [OF ledger_inv_new] by blast
  then show ?thesis
    unfolding Let_def ledger_inv_def canUndo_def canRedo_def by auto
qed

theorem cursor_invariant_witness:
  "(let s = run texts_of clearing (new_HistoryModule [] 50 (Some False) (Some False))
             [Draw [label ''A''], Record, Draw [label ''B''], Record, Undo] in
     history s = [''A'', ''B''] \<and> currentIndex s = 0 \<and> \<not> canUndo s \<and> canRedo s \<and>
     currentIndex s \<noteq> int (length (history s)) - 1) \<and>
   (let s = run texts_of clearing (new_HistoryModule [] 50 (Some False) (Some False)) [Undo, Redo] in
     history s = [] \<and> currentIndex s = - 1 \<and> \<not> canUndo s \<and> \<not> canRedo s)"
  using cursor_invariant [of texts_of clearing "[]" 50 "Some False" "Some False"
      "[Draw [label ''A''], Record, Draw [label ''B''], Record, Undo]"]
    cursor_invariant [of texts_of clearing "[]" 50 "Some False" "Some False" "[Undo, Redo]"]
  by (simp add: eval_defs)

text \<open>
  C5 as stated fails on the ledger as the constructor leaves it: undo is unavailable and
  the cursor is \<open>-1\<close>, not 0.
\<close>

theorem fresh_ledger_cursor_not_zero:
  "\<not> (currentIndex (new_HistoryModule [] 50 (Some False) (Some False)) = 0 \<longleftrightarrow>
       \<not> canUndo (new_HistoryModule [] 50 (Some False) (Some False)))"
  by (simp add: new_HistoryModule_def canUndo_def updateButtons_def)

text \<open>
  C6. In every state of the module, \<^verbatim>\<open>annuler\<close> with the cursor at 0 and
  \<^verbatim>\<open>retablir\<close> with the cursor at the last index return without an exception and leave
  the whole module (snapshot sequence, cursor, scene and buttons) as it was, whatever
  the library's loader would do.
\<close>

theorem boundary_calls_are_noops:
  "(currentIndex s = 0 \<longrightarrow> annuler L s = (None, s)) \<and>
   (currentIndex s = int (length (history s)) - 1 \<longrightarrow> retablir L s = (None, s))"
  by (simp add: annuler_def retablir_def canUndo_def canRedo_def)

theorem boundary_calls_are_noops_witness:
  "currentIndex \<lparr>canvas = [label ''C''], history = [''A'', ''B'', ''C''], currentIndex = 0,
                 limit = 50, undoBtn = Some True, redoBtn = Some False\<rparr> = 0 \<and>
   annuler clearing \<lparr>canvas = [label ''C''], history = [''A'', ''B'', ''C''], currentIndex = 0,
                 limit = 50, undoBtn = Some True, redoBtn = Some False\<rparr>
     = (None, \<lparr>canvas = [label ''C''], history = [''A'', ''B'', ''C''], currentIndex = 0,
                 limit = 50, undoBtn = Some True, redoBtn = Some False\<rparr>) \<and>
   currentIndex \<lparr>canvas = [label ''C''], history = [''A'', ''B'', ''C''], currentIndex = 2,
                 limit = 50, undoBtn = Some False, redoBtn = Some True\<rparr>
     = int (length [''A'', ''B'', ''C'']) - 1 \<and>
   retablir clearing \<lparr>canvas = [label ''C''], history = [''A'', ''B'', ''C''], currentIndex = 2,
                 limit = 50, undoBtn = Some False, redoBtn = Some True\<rparr>
     = (None, \<lparr>canvas = [label ''C''], history = [''A'', ''B'', ''C''], currentIndex = 2,
                 limit = 50, undoBtn = Some False, redoBtn = Some True\<rparr>)"
  using boundary_calls_are_noops [of "\<lparr>canvas = [label ''C''], history = [''A'', ''B'', ''C''],
            currentIndex = 0, limit = 50, undoBtn = Some True, redoBtn = Some False\<rparr>" clearing]
        boundary_calls_are_noops [of "\<lparr>canvas = [label ''C''], history = [''A'', ''B'', ''C''],
            currentIndex = 2, limit = 50, undoBtn = Some False, redoBtn = Some True\<rparr>" clearing]
  by simp

text \<open>
  C9. In every state of the module and for every loader, \<^verbatim>\<open>annuler\<close> and
  \<^verbatim>\<open>retablir\<close> leave the snapshot sequence (its length and every entry) and the limit
  as they were, also when the load throws. What they may change is the cursor, the
  scene and the buttons.
\<close>

theorem undo_redo_keep_history:
  "history (snd (annuler L s)) = history s \<and> limit (snd (annuler L s)) = limit s \<and>
   history (snd (retablir L s)) = history s \<and> limit (snd (retablir L s)) = limit s"
  by (simp add: annuler_fields(1,2) retablir_fields(1,2))

text \<open>
  C10. On the module as the constructor leaves it (no snapshot, cursor \<open>-1\<close>),
  \<^verbatim>\<open>annuler\<close> and \<^verbatim>\<open>retablir\<close> return without an exception and leave the module,
  its scene included, unchanged for every loader. \<^verbatim>\<open>loadState\<close>, the only place
  that indexes the snapshot sequence, hands what it reads to the loader; the result does
  not depend on the loader, so no snapshot is read.
\<close>

theorem fresh_ledger_undo_redo_noop:
  "annuler L (new_HistoryModule c lim u r) = (None, new_HistoryModule c lim u r) \<and>
   retablir L (new_HistoryModule c lim u r) = (None, new_HistoryModule c lim u r)"
  by (simp add: annuler_def retablir_def canUndo_def canRedo_def new_HistoryModule_def
      updateButtons_def)

section \<open>The claims about the association rebuilder\<close>

text \<open>
  C3 (amended). When the loader restores the objects \<open>objs\<close> from the snapshot at the
  cursor, \<^verbatim>\<open>loadState\<close> and the relink pass in it end without an exception. A
  side-channel attribute of a loaded object that is dangling (truthy, and no object of
  the scene has its \<^verbatim>\<open>id\<close>) is left exactly as it was loaded: it is neither linked to
  an object nor reset.
\<close>

theorem dangling_reference_stays_raw:
  assumes loaded: "L (js_index (history s) (currentIndex s)) (canvas s) = Loaded objs"
    and i: "i < length objs"
  shows "fst (loadState L s) = None \<and>
         length (canvas (snd (loadState L s))) = length objs \<and>
         (dangling objs (measurementText (objs ! i)) \<longrightarrow>
            measurementText (canvas (snd (loadState L s)) ! i) = Raw (measurementText (objs ! i))) \<and>
         (dangling objs (lengthMeasurementText (objs ! i)) \<longrightarrow>
            lengthMeasurementText (canvas (snd (loadState L s)) ! i)
              = Raw (lengthMeasurementText (objs ! i)))"
proof -
  have ls: "loadState L s = (None, s\<lparr>canvas := map (\<lambda>obj. snd (relink_obj objs obj)) objs\<rparr>)"
    by (simp add: loadState_def loaded reestablishAssociations_map)
  show ?thesis
    unfolding ls using i by (simp add: relink_obj_dangling)
qed

theorem dangling_reference_stays_raw_witness:
  "restore_table [(''snap'', [orphan_rect, loaded_label ''note''])]
      (js_index [''snap''] 0) [] = Loaded [orphan_rect, loaded_label ''note''] \<and>
   (0::nat) < length [orphan_rect, loaded_label ''note''] \<and>
   dangling [orphan_rect, loaded_label ''note''] (measurementText orphan_rect) \<and>
   dangling [orphan_rect, loaded_label ''note''] (lengthMeasurementText orphan_rect) \<and>
   fst (loadState (restore_table [(''snap'', [orphan_rect, loaded_label ''note''])])
          \<lparr>canvas = [], history = [''snap''], currentIndex = 0, limit = 50,
           undoBtn = None, redoBtn = None\<rparr>) = None \<and>
   measurementText (canvas (snd (loadState (restore_table [(''snap'', [orphan_rect, loaded_label ''note''])])
          \<lparr>canvas = [], history = [''snap''], currentIndex = 0, limit = 50,
           undoBtn = None, redoBtn = None\<rparr>)) ! 0)
     = Raw (Plain (Some 7) ''L: 2.00 cm, H: 1.00 cm'') \<and>
   lengthMeasurementText (canvas (snd (loadState (restore_table [(''snap'', [orphan_rect, loaded_label ''note''])])
          \<lparr>canvas = [], history = [''snap''], currentIndex = 0, limit = 50,
           undoBtn = None, redoBtn = None\<rparr>)) ! 0)
     = Raw (Plain (Some 8) ''L: 2.00 cm'')"
  using dangling_reference_stays_raw [of "restore_table [(''snap'', [orphan_rect, loaded_label ''note''])]"
      "\<lparr>canvas = [], history = [''snap''], currentIndex = 0, limit = 50,
           undoBtn = None, redoBtn = None\<rparr>" "[orphan_rect, loaded_label ''note'']" 0]
  by (simp add: eval_rebuild js_index_def)

text \<open>
  C3 as stated fails: the attribute of a rectangle whose label is not in the snapshot
  still holds the loaded value after the pass; it is not unset.
\<close>

theorem dangling_reference_not_unset:
  "measurementText (hd (canvas (snd (loadState (restore_table [(''snap'', [orphan_rect])])
          \<lparr>canvas = [], history = [''snap''], currentIndex = 0, limit = 50,
           undoBtn = None, redoBtn = None\<rparr>))))
     = Raw (Plain (Some 7) ''L: 2.00 cm, H: 1.00 cm'') \<and>
   measurementText (hd (canvas (snd (loadState (restore_table [(''snap'', [orphan_rect])])
          \<lparr>canvas = [], history = [''snap''], currentIndex = 0, limit = 50,
           undoBtn = None, redoBtn = None\<rparr>))))
     \<noteq> Raw Absent"
  by (simp add: eval_rebuild loadState_def js_index_def reestablishAssociations_def)

text \<open>
  C7, evaluated. A rectangle drawn with the rectangle tool and its label, neither with an
  \<^verbatim>\<open>id\<close>, are recorded, undone and redone. The loaded rectangle carries the label's
  plain object in \<^verbatim>\<open>measurementText\<close>. After the cycle the attribute refers to object
  0 of the scene, the rectangle itself, and not to the label at position 1:
  \<^verbatim>\<open>undefined === undefined\<close> holds for the first object \<^verbatim>\<open>find\<close> visits.
\<close>

theorem cycle_links_rectangle_to_itself:
  "map measurementText (canvas (run texts_of
       (restore_table [('''', []),
          (''L: 2.00 cm, H: 1.00 cm'',
             [loaded_rect (Plain None ''L: 2.00 cm, H: 1.00 cm''),
              loaded_label ''L: 2.00 cm, H: 1.00 cm''])])
       (new_HistoryModule [] 50 (Some False) (Some False))
       [Record, Draw [drawn_rect, label ''L: 2.00 cm, H: 1.00 cm''], Record, Undo, Redo]))
     = [Live 0, Raw Absent] \<and>
   map obj_type (canvas (run texts_of
       (restore_table [('''', []),
          (''L: 2.00 cm, H: 1.00 cm'',
             [loaded_rect (Plain None ''L: 2.00 cm, H: 1.00 cm''),
              loaded_label ''L: 2.00 cm, H: 1.00 cm''])])
       (new_HistoryModule [] 50 (Some False) (Some False))
       [Record, Draw [drawn_rect, label ''L: 2.00 cm, H: 1.00 cm''], Record, Undo, Redo]))
     = [''rect'', ''text'']"
  by (simp add: eval_rebuild eval_defs)

end
